theory Spec2Isabelle
  imports Complex_Main
begin

section \<open>Data model\<close>

text \<open>
  The order core of the restaurant back end: \<^verbatim>\<open>calculateTotalAmount\<close>,
  \<^verbatim>\<open>createOrder\<close>, \<^verbatim>\<open>addItemsToOrder\<close>, \<^verbatim>\<open>getOrderById\<close>,
  \<^verbatim>\<open>updateStatus\<close> and \<^verbatim>\<open>getCompletedOrders\<close>. The repository holds the
  order controller twice: \<^verbatim>\<open>src/controllers/orderController.js\<close>, and a second text
  of it at lines 652 to 955 of \<^verbatim>\<open>src/controllers/vendorStaffController.js\<close>. The
  helper, the creation and the lookup by id read the same in both; the status update differs
  and is embedded once per text; adding items and the report of completed orders exist in
  the second text only.

  Conventions of the embedding.
  \<^item> Mongo object ids, role names and status names are strings, as in the source. Ids are
    taken to be well formed: the driver's cast error for a malformed id is not modelled.
  \<^item> In the handlers a JavaScript Number is a rational and arithmetic is exact; a Number
    that may be \<^verbatim>\<open>undefined\<close> or \<^verbatim>\<open>NaN\<close> is a \<open>rat option\<close>, with \<open>None\<close>
    for both. The helper that computes the total is embedded a second time over binary64
    arithmetic, with its rounding; the two are compared in the last section.
  \<^item> A request field that may be absent is an option, \<open>None\<close> for absent or null.
    A field that is present has the type of the schema: a table number and a quantity are
    Numbers, an id, a status and a date are strings, the items are an array.
  \<^item> The collections are lists of documents. The handlers take the store and return their
    reply together with the store they leave behind.
  \<^item> The id given to a new document and the clock reading taken by the persistence layer
    are parameters.
\<close>

type_synonym objectId = string

text \<open>One line entry of an order (the sub-document of \<^verbatim>\<open>models/Order.js\<close>); \<open>item_notes\<close> is its field \<^verbatim>\<open>notes\<close>.\<close>

record item =
  menuItemId :: "objectId option"
  name :: "string option"
  quantity :: "rat option"
  itemTableNumber :: "rat option"
  addons :: "string list"
  item_notes :: "string option"

text \<open>
  A menu item (\<^verbatim>\<open>models/MenuItem.js\<close>), with the fields the order core reads:
  \<^verbatim>\<open>_id\<close>, \<^verbatim>\<open>vendorId\<close>, \<^verbatim>\<open>name\<close>, \<^verbatim>\<open>price\<close>.
\<close>

record menuItem =
  m_id :: objectId
  m_vendorId :: objectId
  m_name :: string
  price :: rat

text \<open>An order document (\<^verbatim>\<open>models/Order.js\<close>), timestamps in milliseconds.\<close>

record order =
  o_id :: objectId
  tableNumber :: rat
  items :: "item list"
  status :: string
  server :: objectId
  o_vendorId :: objectId
  totalAmount :: rat
  paymentMethod :: "string option"
  createdAt :: int
  updatedAt :: int

text \<open>The authenticated identity \<^verbatim>\<open>req.user\<close> that the middleware attaches.\<close>

record user =
  u_id :: objectId
  role :: string
  u_vendorId :: objectId

record db =
  orders :: "order list"
  menu :: "menuItem list"

text \<open>
  The replies that are not a success, one constructor per kind of reply in the source:
  \<^item> \<open>InvalidInput\<close>: 400, "Order must include table number and at least one item.",
    "Must include at least one new item to add.", "Invalid item data found in ...";
  \<^item> \<open>InvalidReference\<close>: 400, "One or more menu items are invalid or unavailable.";
  \<^item> \<open>NotFound\<close>: 404, "Order not found for this shop.";
  \<^item> \<open>Forbidden\<close>: 400, "Invalid status or role (...) not authorized to set status to ...";
  \<^item> \<open>InvalidState\<close>: 400, "Cannot change status of an already ... order.",
    "Cannot add items to an already ... order.";
  \<^item> \<open>ServerError\<close>: 500.
\<close>

datatype failure =
  InvalidInput | InvalidReference | NotFound | Forbidden | InvalidState | ServerError

text \<open>What the helper throws: its own \<^verbatim>\<open>Error\<close>, or a \<^verbatim>\<open>TypeError\<close> of the runtime.\<close>

datatype exn = InvalidOrUnavailable | TypeError

section \<open>JavaScript truthiness and numbers\<close>

definition truthy_str :: "string option \<Rightarrow> bool" where
  "truthy_str s = (case s of None \<Rightarrow> False | Some x \<Rightarrow> x \<noteq> [])"

definition truthy_num :: "rat option \<Rightarrow> bool" where
  "truthy_num n = (case n of None \<Rightarrow> False | Some x \<Rightarrow> x \<noteq> 0)"

text \<open>\<^verbatim>\<open>x > 0\<close>: false for \<^verbatim>\<open>undefined\<close>, which compares as \<^verbatim>\<open>NaN\<close>.\<close>

definition gt_zero :: "rat option \<Rightarrow> bool" where
  "gt_zero n = (case n of None \<Rightarrow> False | Some x \<Rightarrow> 0 < x)"

definition js_mul :: "rat option \<Rightarrow> rat \<Rightarrow> rat option" where
  "js_mul a b = (case a of None \<Rightarrow> None | Some x \<Rightarrow> Some (x * b))"

definition js_add :: "rat option \<Rightarrow> rat option \<Rightarrow> rat option" where
  "js_add a b = (case a of None \<Rightarrow> None
                 | Some x \<Rightarrow> (case b of None \<Rightarrow> None | Some y \<Rightarrow> Some (x + y)))"

section \<open>The persistence layer\<close>

text \<open>\<^verbatim>\<open>Order.findOne({ _id, vendorId })\<close>: the first document matching both.\<close>

definition findOne :: "objectId \<Rightarrow> objectId \<Rightarrow> order list \<Rightarrow> order option" where
  "findOne i v os = find (\<lambda>x. o_id x = i \<and> o_vendorId x = v) os"

text \<open>
  \<^verbatim>\<open>order.save()\<close> on a loaded document: nothing is written when no field changed;
  otherwise the document with the same \<^verbatim>\<open>_id\<close> is replaced and \<^verbatim>\<open>updatedAt\<close>
  is set to the clock.
\<close>

definition save :: "int \<Rightarrow> order \<Rightarrow> order \<Rightarrow> order list \<Rightarrow> order \<times> order list" where
  "save now loaded changed os =
     (if changed = loaded then (changed, os)
      else (let saved = changed\<lparr>updatedAt := now\<rparr>
            in (saved, map (\<lambda>x. if o_id x = o_id saved then saved else x) os)))"

section \<open>Status update\<close>

text \<open>
  The literal \<^verbatim>\<open>allowedTransitions\<close>, read at \<^verbatim>\<open>allowedTransitions[userRole]\<close>:
  \<open>None\<close> is \<^verbatim>\<open>undefined\<close>. The identity's role is one of the four values of the
  enum in \<^verbatim>\<open>models/User.js\<close>; other strings stand for roles without an entry.
\<close>

definition allowedTransitions :: "string \<Rightarrow> string list option" where
  "allowedTransitions r =
     (if r = ''Kitchen'' then Some [''Ready'']
      else if r = ''Server'' then Some [''Served'']
      else if r = ''Billing'' then Some [''Billed'', ''Completed'']
      else if r = ''Vendor'' then
        Some [''Pending'', ''Kitchen'', ''Ready'', ''Served'', ''Billed'', ''Completed'']
      else None)"

text \<open>
  \<^verbatim>\<open>!newStatus || !allowedTransitions[userRole]?.includes(newStatus)\<close>, negated: the
  request may go on to the lookup.
\<close>

definition mayRequest :: "string \<Rightarrow> string option \<Rightarrow> bool" where
  "mayRequest r newStatus =
     (case newStatus of
        None \<Rightarrow> False
      | Some s \<Rightarrow> s \<noteq> [] \<and>
          (case allowedTransitions r of None \<Rightarrow> False | Some allowed \<Rightarrow> s \<in> set allowed))"

text \<open>
  \<^verbatim>\<open>updateStatus\<close> of \<^verbatim>\<open>vendorStaffController.js\<close> (lines 863 to 908). Its guard on
  a completed order exempts the owner:
  \<^verbatim>\<open>order.status === 'Completed' && userRole !== 'Vendor'\<close>.
\<close>

definition updateStatus ::
  "user \<Rightarrow> objectId \<Rightarrow> string option \<Rightarrow> int \<Rightarrow> db \<Rightarrow> (failure + order) \<times> db" where
  "updateStatus usr orderId newStatus now d =
     (case newStatus of
        None \<Rightarrow> (Inl Forbidden, d)
      | Some s \<Rightarrow>
          if \<not> mayRequest (role usr) newStatus then (Inl Forbidden, d)
          else (case findOne orderId (u_vendorId usr) (orders d) of
                  None \<Rightarrow> (Inl NotFound, d)
                | Some ord \<Rightarrow>
                    if status ord = ''Completed'' \<and> role usr \<noteq> ''Vendor''
                    then (Inl InvalidState, d)
                    else (let (saved, os) = save now ord (ord\<lparr>status := s\<rparr>) (orders d)
                          in (Inr saved, d\<lparr>orders := os\<rparr>))))"

text \<open>
  \<^verbatim>\<open>updateStatus\<close> of \<^verbatim>\<open>orderController.js\<close> (lines 152 to 196), the handler the
  router of \<^verbatim>\<open>routes/order.js\<close> requires. Its guard reads
  \<^verbatim>\<open>order.status === 'Completed' || order.status === 'Billed'\<close>, for every role.
\<close>

definition updateStatus_orderController ::
  "user \<Rightarrow> objectId \<Rightarrow> string option \<Rightarrow> int \<Rightarrow> db \<Rightarrow> (failure + order) \<times> db" where
  "updateStatus_orderController usr orderId newStatus now d =
     (case newStatus of
        None \<Rightarrow> (Inl Forbidden, d)
      | Some s \<Rightarrow>
          if \<not> mayRequest (role usr) newStatus then (Inl Forbidden, d)
          else (case findOne orderId (u_vendorId usr) (orders d) of
                  None \<Rightarrow> (Inl NotFound, d)
                | Some ord \<Rightarrow>
                    if status ord = ''Completed'' \<or> status ord = ''Billed''
                    then (Inl InvalidState, d)
                    else (let (saved, os) = save now ord (ord\<lparr>status := s\<rparr>) (orders d)
                          in (Inr saved, d\<lparr>orders := os\<rparr>))))"

section \<open>Price resolution and total\<close>

text \<open>
  \<^verbatim>\<open>MenuItem.find({ _id: { $in: itemIds }, vendorId })\<close>: the documents of the
  collection whose id is among the requested ones and whose vendor is the caller's, each
  document once, however often its id is requested.
\<close>

definition findMenuItems ::
  "objectId option list \<Rightarrow> objectId \<Rightarrow> menuItem list \<Rightarrow> menuItem list" where
  "findMenuItems itemIds v ms =
     filter (\<lambda>m. Some (m_id m) \<in> set itemIds \<and> m_vendorId m = v) ms"

text \<open>The \<^verbatim>\<open>reduce\<close> that builds \<^verbatim>\<open>priceMap\<close>: a later document overwrites.\<close>

definition priceMap :: "menuItem list \<Rightarrow> (objectId \<rightharpoonup> rat \<times> string)" where
  "priceMap ms = foldl (\<lambda>acc m. acc(m_id m \<mapsto> (price m, m_name m))) Map.empty ms"

text \<open>
  The \<^verbatim>\<open>forEach\<close> over the lines, with the running \<^verbatim>\<open>total\<close>: a line whose
  id has an entry adds \<^verbatim>\<open>quantity * price\<close> and takes the entry's name; a line
  without an entry is passed over; \<^verbatim>\<open>item.menuItemId.toString()\<close> on an absent id
  throws.
\<close>

fun priceLines ::
  "(objectId \<rightharpoonup> rat \<times> string) \<Rightarrow> item list \<Rightarrow> rat option \<Rightarrow> exn + (rat option \<times> item list)" where
  "priceLines pm [] tot = Inr (tot, [])"
| "priceLines pm (it # rest) tot =
     (case menuItemId it of
        None \<Rightarrow> Inl TypeError
      | Some k \<Rightarrow>
          (case pm k of
             None \<Rightarrow>
               (case priceLines pm rest tot of
                  Inl e \<Rightarrow> Inl e
                | Inr (t, rest') \<Rightarrow> Inr (t, it # rest'))
           | Some (p, n) \<Rightarrow>
               (case priceLines pm rest (js_add tot (js_mul (quantity it) p)) of
                  Inl e \<Rightarrow> Inl e
                | Inr (t, rest') \<Rightarrow> Inr (t, it\<lparr>name := Some n\<rparr> # rest'))))"

text \<open>
  \<^verbatim>\<open>calculateTotalAmount\<close> (\<^verbatim>\<open>orderController.js\<close> lines 7 to 36, and again
  \<^verbatim>\<open>vendorStaffController.js\<close> lines 658 to 686). The guard compares the number of
  documents found with \<^verbatim>\<open>itemIds.length\<close>, the number of lines. The result is the
  total and the lines with their names written.
\<close>

definition calculateTotalAmount ::
  "item list \<Rightarrow> objectId \<Rightarrow> menuItem list \<Rightarrow> exn + (rat option \<times> item list)" where
  "calculateTotalAmount its v ms =
     (let itemIds = map menuItemId its;
          menuItems = findMenuItems itemIds v ms
      in if length menuItems \<noteq> length itemIds then Inl InvalidOrUnavailable
         else priceLines (priceMap menuItems) its (Some 0))"

section \<open>Creating an order and adding items\<close>

text \<open>
  The check of one line:
  \<^verbatim>\<open>item.menuItemId && item.quantity > 0 && item.itemTableNumber\<close>.
\<close>

definition isValid :: "item \<Rightarrow> bool" where
  "isValid it =
     (truthy_str (menuItemId it) \<and> gt_zero (quantity it) \<and> truthy_num (itemTableNumber it))"

text \<open>
  The \<^verbatim>\<open>catch\<close> of both handlers: the helper's own error is answered with 400 and
  its message, anything else with 500.
\<close>

definition caught :: "exn \<Rightarrow> failure" where
  "caught e = (case e of InvalidOrUnavailable \<Rightarrow> InvalidReference | TypeError \<Rightarrow> ServerError)"

text \<open>
  \<^verbatim>\<open>createOrder\<close> (\<^verbatim>\<open>orderController.js\<close> lines 42 to 80, and again
  \<^verbatim>\<open>vendorStaffController.js\<close> lines 692 to 729). \<open>fresh\<close> is the id the new
  document gets. A total that is not a number does not pass the schema's cast and ends in
  the 500 reply.
\<close>

definition createOrder ::
  "user \<Rightarrow> rat option \<Rightarrow> item list option \<Rightarrow> objectId \<Rightarrow> int \<Rightarrow> db \<Rightarrow> (failure + order) \<times> db" where
  "createOrder usr tableNo body_items fresh now d =
     (case body_items of
        None \<Rightarrow> (Inl InvalidInput, d)
      | Some its \<Rightarrow>
          if \<not> truthy_num tableNo \<or> length its = 0 then (Inl InvalidInput, d)
          else if \<not> list_all isValid its then (Inl InvalidInput, d)
          else (case calculateTotalAmount its (u_vendorId usr) (menu d) of
                  Inl e \<Rightarrow> (Inl (caught e), d)
                | Inr (tot, its') \<Rightarrow>
                    (case (tableNo, tot) of
                       (Some tn, Some t) \<Rightarrow>
                         (let newOrder = \<lparr> o_id = fresh, tableNumber = tn, items = its',
                                status = ''Kitchen'', server = u_id usr,
                                o_vendorId = u_vendorId usr, totalAmount = t,
                                paymentMethod = None, createdAt = now, updatedAt = now \<rparr>
                          in (Inr newOrder, d\<lparr>orders := orders d @ [newOrder]\<rparr>))
                     | _ \<Rightarrow> (Inl ServerError, d))))"

text \<open>
  \<^verbatim>\<open>addItemsToOrder\<close> (\<^verbatim>\<open>vendorStaffController.js\<close> lines 734 to 793).
\<close>

definition addItemsToOrder ::
  "user \<Rightarrow> objectId \<Rightarrow> item list option \<Rightarrow> int \<Rightarrow> db \<Rightarrow> (failure + order) \<times> db" where
  "addItemsToOrder usr orderId newItems now d =
     (case newItems of
        None \<Rightarrow> (Inl InvalidInput, d)
      | Some its \<Rightarrow>
          if length its = 0 then (Inl InvalidInput, d)
          else if \<not> list_all isValid its then (Inl InvalidInput, d)
          else (case findOne orderId (u_vendorId usr) (orders d) of
                  None \<Rightarrow> (Inl NotFound, d)
                | Some ord \<Rightarrow>
                    if status ord = ''Completed'' \<or> status ord = ''Billed''
                    then (Inl InvalidState, d)
                    else (case calculateTotalAmount its (u_vendorId usr) (menu d) of
                            Inl e \<Rightarrow> (Inl (caught e), d)
                          | Inr (tot, its') \<Rightarrow>
                              (case tot of
                                 None \<Rightarrow> (Inl ServerError, d)
                               | Some newItemsTotal \<Rightarrow>
                                   (let ord' = ord\<lparr> items := items ord @ its',
                                          totalAmount := totalAmount ord + newItemsTotal,
                                          status := (if status ord \<noteq> ''Kitchen'' \<and>
                                                        status ord \<noteq> ''Pending''
                                                     then ''Kitchen'' else status ord) \<rparr>;
                                        (saved, os) = save now ord ord' (orders d)
                                    in (Inr saved, d\<lparr>orders := os\<rparr>))))))"

section \<open>Reading orders\<close>

text \<open>
  \<^verbatim>\<open>getOrderById\<close> (\<^verbatim>\<open>orderController.js\<close> lines 125 to 147, and again
  \<^verbatim>\<open>vendorStaffController.js\<close> lines 837 to 858).
\<close>

definition getOrderById :: "user \<Rightarrow> objectId \<Rightarrow> db \<Rightarrow> failure + order" where
  "getOrderById usr orderId d =
     (case findOne orderId (u_vendorId usr) (orders d) of
        None \<Rightarrow> Inl NotFound
      | Some ord \<Rightarrow> Inr ord)"

text \<open>
  \<^verbatim>\<open>endOfDay.setHours(23, 59, 59, 999)\<close> on an instant \<open>t\<close>, in milliseconds: the
  clock fields are set in the server's local time, which is \<open>tz\<close> milliseconds ahead
  of UTC (one fixed offset; a change of offset within the day is not modelled).
\<close>

definition endOfDay :: "int \<Rightarrow> int \<Rightarrow> int" where
  "endOfDay tz t = ((t + tz) div 86400000) * 86400000 + 86399999 - tz"






section \<open>The arithmetic of the runtime\<close>



text \<open>
  The binary exponent of a positive rational \<open>x\<close>, the \<open>e\<close> with
  \<open>2 ^ e \<le> x < 2 ^ (e + 1)\<close>: found by halving from 2 upwards and by doubling below 1.
\<close>

function expo_hi :: "rat \<Rightarrow> int" where
  "expo_hi x = (if 2 \<le> x then expo_hi (x / 2) + 1 else 0)"
  by pat_completeness auto
termination
proof (relation "measure (\<lambda>x. nat \<lfloor>x\<rfloor>)")
  show "wf (measure (\<lambda>x::rat. nat \<lfloor>x\<rfloor>))" by simp
next
  fix x :: rat
  assume "2 \<le> x"
  then have "x / 2 \<le> x - 1" by simp
  then have "\<lfloor>x / 2\<rfloor> \<le> \<lfloor>x - 1\<rfloor>" by (rule floor_mono)
  moreover have "\<lfloor>x - 1\<rfloor> = \<lfloor>x\<rfloor> - 1" by simp
  moreover from \<open>2 \<le> x\<close> have "2 \<le> \<lfloor>x\<rfloor>" by (simp add: le_floor_iff)
  ultimately show "(x / 2, x) \<in> measure (\<lambda>x. nat \<lfloor>x\<rfloor>)" by simp
qed

function expo_lo :: "rat \<Rightarrow> int" where
  "expo_lo x = (if 0 < x \<and> x < 1 then expo_lo (2 * x) - 1 else 0)"
  by pat_completeness auto
termination
proof (relation "measure (\<lambda>x. nat \<lceil>1 / x\<rceil>)")
  show "wf (measure (\<lambda>x::rat. nat \<lceil>1 / x\<rceil>))" by simp
next
  fix x :: rat
  assume a: "0 < x \<and> x < 1"
  then have "1 < 1 / x" by simp
  then have c: "2 \<le> \<lceil>1 / x\<rceil>" by (simp add: le_ceiling_iff)
  have "1 / (2 * x) = (1 / x) / 2" by simp
  also have "\<dots> \<le> of_int \<lceil>1 / x\<rceil> / 2" by (simp add: divide_right_mono)
  also have "\<dots> \<le> of_int (\<lceil>1 / x\<rceil> - 1)" using c by simp
  finally have "1 / (2 * x) \<le> of_int (\<lceil>1 / x\<rceil> - 1)" .
  then have "\<lceil>1 / (2 * x)\<rceil> \<le> \<lceil>1 / x\<rceil> - 1" by (simp only: ceiling_le_iff)
  with c have "\<lceil>1 / (2 * x)\<rceil> < \<lceil>1 / x\<rceil>" and "0 < \<lceil>1 / x\<rceil>" by linarith+
  then have "nat \<lceil>1 / (2 * x)\<rceil> < nat \<lceil>1 / x\<rceil>" by (simp only: nat_mono_iff)
  then show "(2 * x, x) \<in> measure (\<lambda>x. nat \<lceil>1 / x\<rceil>)" by simp
qed

declare expo_hi.simps [simp del] expo_lo.simps [simp del]

definition expo :: "rat \<Rightarrow> int" where
  "expo x = (if 1 \<le> x then expo_hi x else expo_lo x)"

text \<open>
  The power of two with an integer exponent.
\<close>

definition pow2 :: "int \<Rightarrow> rat" where
  "pow2 e = (if 0 \<le> e then 2 ^ nat e else 1 / 2 ^ nat (- e))"







section \<open>The specification's tables and the data of the examples\<close>

text \<open>
  The authorization matrix in the specification's words: the set of statuses a role may
  set. A role without a row may set none.
\<close>

definition allowedSet :: "string \<Rightarrow> string set" where
  "allowedSet r =
     (if r = ''Kitchen'' then {''Ready''}
      else if r = ''Server'' then {''Served''}
      else if r = ''Billing'' then {''Billed'', ''Completed''}
      else if r = ''Vendor'' then
        {''Pending'', ''Kitchen'', ''Ready'', ''Served'', ''Billed'', ''Completed''}
      else {})"

text \<open>
  A small shop \<open>v1\<close> with two dishes, tea at 100 and cake at 50, and a dish of another
  shop \<open>v2\<close>; an order \<open>o1\<close> of \<open>v1\<close> and an order \<open>o2\<close> of \<open>v2\<close>, both
  in the status given.
\<close>

definition ex_menu :: "menuItem list" where
  "ex_menu =
     [\<lparr> m_id = ''A'', m_vendorId = ''v1'', m_name = ''Tea'', price = 100 \<rparr>,
      \<lparr> m_id = ''B'', m_vendorId = ''v1'', m_name = ''Cake'', price = 50 \<rparr>,
      \<lparr> m_id = ''C'', m_vendorId = ''v2'', m_name = ''Soup'', price = 70 \<rparr>]"

definition ex_line :: "objectId \<Rightarrow> rat \<Rightarrow> rat \<Rightarrow> item" where
  "ex_line k q tn =
     \<lparr> menuItemId = Some k, name = None, quantity = Some q, itemTableNumber = Some tn,
       addons = [], item_notes = None \<rparr>"

definition ex_order :: "objectId \<Rightarrow> objectId \<Rightarrow> string \<Rightarrow> order" where
  "ex_order i v st =
     \<lparr> o_id = i, tableNumber = 5,
       items = [(ex_line ''A'' 2 5)\<lparr>name := Some ''Tea''\<rparr>],
       status = st, server = ''u1'', o_vendorId = v, totalAmount = 200,
       paymentMethod = None, createdAt = 1000, updatedAt = 1000 \<rparr>"

definition ex_user :: "string \<Rightarrow> user" where
  "ex_user r = \<lparr> u_id = ''u1'', role = r, u_vendorId = ''v1'' \<rparr>"

definition ex_db :: "string \<Rightarrow> db" where
  "ex_db st =
     \<lparr> orders = [ex_order ''o1'' ''v1'' st, ex_order ''o2'' ''v2'' st], menu = ex_menu \<rparr>"

text \<open>Two lines for the same dish, served at two tables.\<close>

definition ex_repeated :: "item list" where
  "ex_repeated = [ex_line ''A'' 1 5, ex_line ''A'' 2 6]"

text \<open>
  Price resolution in the specification's words. \<open>resolve v ms k\<close> is the entry of the
  catalog \<open>ms\<close> with id \<open>k\<close> that belongs to vendor \<open>v\<close>; a line is resolvable when
  its id has such an entry; \<open>lineAmount\<close> is the quantity of a line times the unit price
  of its entry; \<open>denormalized\<close> is the line with the display name of its entry written
  onto it.
\<close>

definition resolve :: "objectId \<Rightarrow> menuItem list \<Rightarrow> objectId \<Rightarrow> menuItem option" where
  "resolve v ms k = find (\<lambda>m. m_id m = k \<and> m_vendorId m = v) ms"

definition lineAmount :: "objectId \<Rightarrow> menuItem list \<Rightarrow> item \<Rightarrow> rat" where
  "lineAmount v ms it =
     (case (menuItemId it, quantity it) of
        (Some k, Some q) \<Rightarrow> (case resolve v ms k of Some m \<Rightarrow> q * price m | None \<Rightarrow> 0)
      | _ \<Rightarrow> 0)"

definition denormalized :: "objectId \<Rightarrow> menuItem list \<Rightarrow> item \<Rightarrow> item" where
  "denormalized v ms it =
     (case menuItemId it of
        Some k \<Rightarrow> (case resolve v ms k of Some m \<Rightarrow> it\<lparr>name := Some (m_name m)\<rparr> | None \<Rightarrow> it)
      | None \<Rightarrow> it)"

definition resolvable :: "objectId \<Rightarrow> menuItem list \<Rightarrow> item \<Rightarrow> bool" where
  "resolvable v ms it =
     (case menuItemId it of Some k \<Rightarrow> resolve v ms k \<noteq> None | None \<Rightarrow> False)"


text \<open>The store with every order of the given id taken out.\<close>

definition without :: "objectId \<Rightarrow> db \<Rightarrow> db" where
  "without i d = d\<lparr>orders := filter (\<lambda>x. o_id x \<noteq> i) (orders d)\<rparr>"

text \<open>
  The lines and the requests that creation refuses: a line with no id or an empty one, with
  no quantity or one that is not above zero, or with no table number or the table number
  zero; a request with no table number or the table number zero, with no items or an empty
  list of them, or with such a line.
\<close>

definition badLine :: "item \<Rightarrow> bool" where
  "badLine it =
     ((case menuItemId it of None \<Rightarrow> True | Some k \<Rightarrow> k = []) \<or>
      (case quantity it of None \<Rightarrow> True | Some q \<Rightarrow> q \<le> 0) \<or>
      (case itemTableNumber it of None \<Rightarrow> True | Some n \<Rightarrow> n = 0))"

definition refused :: "rat option \<Rightarrow> item list option \<Rightarrow> bool" where
  "refused tableNo body_items =
     ((case tableNo of None \<Rightarrow> True | Some n \<Rightarrow> n = 0) \<or>
      (case body_items of None \<Rightarrow> True | Some its \<Rightarrow> its = [] \<or> list_ex badLine its))"

text \<open>The order created from one tea for the table number \<open>- 1\<close>.\<close>

definition ex_created :: order where
  "ex_created =
     \<lparr> o_id = ''o9'', tableNumber = 5,
       items = [(ex_line ''A'' 1 (- 1))\<lparr>name := Some ''Tea''\<rparr>],
       status = ''Kitchen'', server = ''u1'', o_vendorId = ''v1'', totalAmount = 100,
       paymentMethod = None, createdAt = 3000, updatedAt = 3000 \<rparr>"








section \<open>The role check of the status update\<close>

lemma mayRequest_Some: "mayRequest r (Some s) \<longleftrightarrow> s \<in> allowedSet r"
  by (auto simp: mayRequest_def allowedTransitions_def allowedSet_def)



section \<open>Price resolution\<close>

lemma priceMap_snoc: "priceMap (ms @ [m]) = (priceMap ms)(m_id m \<mapsto> (price m, m_name m))"
  by (simp add: priceMap_def)

lemma priceMap_Some:
  "distinct (map m_id ms) \<Longrightarrow> m \<in> set ms \<Longrightarrow> priceMap ms (m_id m) = Some (price m, m_name m)"
proof (induction ms rule: rev_induct)
  case Nil
  then show ?case by simp
next
  case (snoc x xs)
  show ?case
  proof (cases "m = x")
    case True
    then show ?thesis by (simp add: priceMap_snoc)
  next
    case False
    with snoc.prems have "m \<in> set xs" and "m_id x \<noteq> m_id m" and "distinct (map m_id xs)"
      by auto
    with snoc.IH show ?thesis by (simp add: priceMap_snoc)
  qed
qed

lemma resolve_Some_iff:
  assumes "distinct (map m_id ms)"
  shows "resolve v ms k = Some m \<longleftrightarrow> m \<in> set ms \<and> m_id m = k \<and> m_vendorId m = v"
  using assms
proof (induction ms)
  case Nil
  then show ?case by (simp add: resolve_def)
next
  case (Cons x xs)
  then have IH: "resolve v xs k = Some m \<longleftrightarrow> m \<in> set xs \<and> m_id m = k \<and> m_vendorId m = v"
    by simp
  from Cons.prems have "m_id x \<notin> m_id ` set xs" by simp
  then have fresh: "\<forall>y\<in>set xs. m_id y \<noteq> m_id x" by (metis imageI)
  show ?case
  proof (cases "m_id x = k \<and> m_vendorId x = v")
    case True
    with fresh show ?thesis by (auto simp: resolve_def)
  next
    case False
    then have "resolve v (x # xs) k = resolve v xs k" by (auto simp: resolve_def)
    with IH False show ?thesis by auto
  qed
qed

lemma findMenuItems_set:
  "set (findMenuItems ids v ms) = {m \<in> set ms. Some (m_id m) \<in> set ids \<and> m_vendorId m = v}"
  by (auto simp: findMenuItems_def)

lemma findMenuItems_distinct:
  "distinct (map m_id ms) \<Longrightarrow> distinct (map m_id (findMenuItems ids v ms))"
  by (simp add: findMenuItems_def distinct_map_filter)

lemma found_ids_subset: "Some ` m_id ` set (findMenuItems ids v ms) \<subseteq> set ids"
  by (auto simp: findMenuItems_set)

lemma length_found_card:
  assumes "distinct (map m_id ms)"
  shows "length (findMenuItems ids v ms) = card (Some ` m_id ` set (findMenuItems ids v ms))"
proof -
  let ?F = "findMenuItems ids v ms"
  have "distinct (map m_id ?F)" using assms by (rule findMenuItems_distinct)
  then have "card (m_id ` set ?F) = length ?F"
    by (metis distinct_card length_map set_map)
  moreover have "card (Some ` m_id ` set ?F) = card (m_id ` set ?F)"
    by (simp add: card_image)
  ultimately show ?thesis by simp
qed

lemma length_match_imp:
  assumes d: "distinct (map m_id ms)"
    and len: "length (findMenuItems ids v ms) = length ids"
  shows "distinct ids \<and> set ids = Some ` m_id ` set (findMenuItems ids v ms)"
proof -
  let ?S = "Some ` m_id ` set (findMenuItems ids v ms)"
  have sub: "?S \<subseteq> set ids" by (rule found_ids_subset)
  have "card ?S = length ids" using length_found_card [OF d, of ids v] len by simp
  moreover have "card ?S \<le> card (set ids)" using sub by (simp add: card_mono)
  moreover have "card (set ids) \<le> length ids" by (rule card_length)
  ultimately have c: "card (set ids) = length ids" and e: "card ?S = card (set ids)" by auto
  from c have "distinct ids" by (rule card_distinct)
  moreover from sub e have "?S = set ids" by (simp add: card_subset_eq)
  ultimately show ?thesis by simp
qed

lemma length_match_conv:
  assumes d: "distinct (map m_id ms)"
    and di: "distinct ids"
    and all: "set ids \<subseteq> Some ` m_id ` set (findMenuItems ids v ms)"
  shows "length (findMenuItems ids v ms) = length ids"
proof -
  let ?S = "Some ` m_id ` set (findMenuItems ids v ms)"
  have "?S = set ids" using all found_ids_subset [of ids v ms] by blast
  then have "card ?S = length ids" using di by (simp add: distinct_card)
  with length_found_card [OF d, of ids v] show ?thesis by simp
qed

lemma resolvable_found:
  assumes "distinct (map m_id ms)" and "it \<in> set its"
  shows "resolvable v ms it \<longleftrightarrow>
         menuItemId it \<in> Some ` m_id ` set (findMenuItems (map menuItemId its) v ms)"
proof (cases "menuItemId it")
  case None
  then show ?thesis by (auto simp: resolvable_def)
next
  case (Some k)
  have "resolve v ms k \<noteq> None \<longleftrightarrow> (\<exists>m. m \<in> set ms \<and> m_id m = k \<and> m_vendorId m = v)"
    using resolve_Some_iff [OF assms(1), of v k] by auto
  moreover have "Some k \<in> set (map menuItemId its)" using assms(2) Some by force
  ultimately show ?thesis using Some
    by (auto simp: resolvable_def findMenuItems_set image_iff)
qed

text \<open>
  The guard of the helper, exactly: with unique ids in the catalog, the number of documents
  found equals the number of lines if and only if the ids of the lines are pairwise
  distinct and each has an entry in the vendor's catalog.
\<close>

lemma guard_iff:
  assumes d: "distinct (map m_id ms)"
  shows "length (findMenuItems (map menuItemId its) v ms) = length (map menuItemId its) \<longleftrightarrow>
         distinct (map menuItemId its) \<and> list_all (resolvable v ms) its"
proof
  assume len: "length (findMenuItems (map menuItemId its) v ms) = length (map menuItemId its)"
  from length_match_imp [OF d len]
  have di: "distinct (map menuItemId its)"
    and eq: "set (map menuItemId its) = Some ` m_id ` set (findMenuItems (map menuItemId its) v ms)"
    by simp_all
  have "resolvable v ms it" if "it \<in> set its" for it
  proof -
    from that have "menuItemId it \<in> set (map menuItemId its)" by simp
    with eq resolvable_found [OF d that, of v] show ?thesis by simp
  qed
  with di show "distinct (map menuItemId its) \<and> list_all (resolvable v ms) its"
    by (simp add: list_all_iff)
next
  assume a: "distinct (map menuItemId its) \<and> list_all (resolvable v ms) its"
  have "set (map menuItemId its) \<subseteq> Some ` m_id ` set (findMenuItems (map menuItemId its) v ms)"
  proof
    fix x assume "x \<in> set (map menuItemId its)"
    then obtain it where it: "it \<in> set its" and x: "x = menuItemId it" by auto
    from a it have "resolvable v ms it" by (simp add: list_all_iff)
    with resolvable_found [OF d it, of v] x
    show "x \<in> Some ` m_id ` set (findMenuItems (map menuItemId its) v ms)" by simp
  qed
  with length_match_conv [OF d] a
  show "length (findMenuItems (map menuItemId its) v ms) = length (map menuItemId its)"
    by blast
qed

lemma priceLines_resolved:
  assumes "\<forall>it\<in>set its. \<exists>k m. menuItemId it = Some k \<and> resolve v ms k = Some m \<and>
             pm k = Some (price m, m_name m)"
    and "\<forall>it\<in>set its. quantity it \<noteq> None"
  shows "priceLines pm its (Some a) =
         Inr (Some (a + sum_list (map (lineAmount v ms) its)), map (denormalized v ms) its)"
  using assms
proof (induction its arbitrary: a)
  case Nil
  then show ?case by simp
next
  case (Cons it rest)
  from Cons.prems obtain k m q where k: "menuItemId it = Some k" and m: "resolve v ms k = Some m"
    and pm: "pm k = Some (price m, m_name m)" and q: "quantity it = Some q"
    by auto
  have la: "lineAmount v ms it = q * price m" using k m q by (simp add: lineAmount_def)
  have dn: "denormalized v ms it = it\<lparr>name := Some (m_name m)\<rparr>"
    using k m by (simp add: denormalized_def)
  have "priceLines pm rest (Some (a + q * price m)) =
        Inr (Some ((a + q * price m) + sum_list (map (lineAmount v ms) rest)),
             map (denormalized v ms) rest)"
    using Cons.prems by (intro Cons.IH) auto
  then show ?case using k pm q la dn
    by (simp add: js_add_def js_mul_def add.assoc)
qed

lemma calculateTotalAmount_ok:
  assumes d: "distinct (map m_id ms)"
    and di: "distinct (map menuItemId its)"
    and res: "list_all (resolvable v ms) its"
    and qs: "\<forall>it\<in>set its. quantity it \<noteq> None"
  shows "calculateTotalAmount its v ms =
         Inr (Some (sum_list (map (lineAmount v ms) its)), map (denormalized v ms) its)"
proof -
  let ?F = "findMenuItems (map menuItemId its) v ms"
  have len: "length ?F = length (map menuItemId its)"
    using guard_iff [OF d, of its v] di res by simp
  have dF: "distinct (map m_id ?F)" using d by (rule findMenuItems_distinct)
  have "\<exists>k m. menuItemId it = Some k \<and> resolve v ms k = Some m \<and>
          priceMap ?F k = Some (price m, m_name m)" if it: "it \<in> set its" for it
  proof -
    from res it have "resolvable v ms it" by (simp add: list_all_iff)
    then obtain k m where k: "menuItemId it = Some k" and m: "resolve v ms k = Some m"
      by (auto simp: resolvable_def split: option.splits)
    from m resolve_Some_iff [OF d] have mm: "m \<in> set ms" "m_id m = k" "m_vendorId m = v"
      by auto
    have "Some k \<in> set (map menuItemId its)" using it k by force
    with mm have "m \<in> set ?F" by (simp add: findMenuItems_set)
    from priceMap_Some [OF dF this] mm k m show ?thesis by auto
  qed
  then have "priceLines (priceMap ?F) its (Some 0) =
             Inr (Some (0 + sum_list (map (lineAmount v ms) its)), map (denormalized v ms) its)"
    using qs by (intro priceLines_resolved) auto
  with len show ?thesis by (simp add: calculateTotalAmount_def Let_def)
qed

lemma calculateTotalAmount_fails:
  assumes d: "distinct (map m_id ms)"
    and "\<not> (distinct (map menuItemId its) \<and> list_all (resolvable v ms) its)"
  shows "calculateTotalAmount its v ms = Inl InvalidOrUnavailable"
  using guard_iff [OF d, of its v] assms(2)
  by (simp add: calculateTotalAmount_def Let_def)

lemma isValid_quantity: "isValid it \<Longrightarrow> quantity it \<noteq> None"
  by (auto simp: isValid_def gt_zero_def split: option.splits)

section \<open>What the helper returns\<close>



text \<open>
  Claim C7. The specification fails a batch exactly when the number of distinct catalog
  entries found differs from the number of distinct ids requested. The helper compares
  the number of entries found with the number of lines instead. So in a batch in which
  every line resolves and an id occurs twice, as many distinct entries are found as
  distinct ids are requested, and the helper fails all the same, with its own error.
\<close>

theorem calculateTotalAmount_repeated_id:
  assumes d: "distinct (map m_id ms)"
    and res: "list_all (resolvable v ms) its"
    and rep: "\<not> distinct (map menuItemId its)"
  shows "card (m_id ` set (findMenuItems (map menuItemId its) v ms))
           = card (set (map menuItemId its)) \<and>
         calculateTotalAmount its v ms = Inl InvalidOrUnavailable"
proof -
  let ?F = "findMenuItems (map menuItemId its) v ms"
  have "set (map menuItemId its) \<subseteq> Some ` m_id ` set ?F"
  proof
    fix x assume "x \<in> set (map menuItemId its)"
    then obtain it where it: "it \<in> set its" and x: "x = menuItemId it" by auto
    from res it have "resolvable v ms it" by (simp add: list_all_iff)
    with resolvable_found [OF d it, of v] x show "x \<in> Some ` m_id ` set ?F" by simp
  qed
  with found_ids_subset [of "map menuItemId its" v ms]
  have "set (map menuItemId its) = Some ` m_id ` set ?F" by blast
  then have "card (set (map menuItemId its)) = card (m_id ` set ?F)"
    by (simp add: card_image)
  with calculateTotalAmount_fails [OF d, of its v] rep show ?thesis by simp
qed

lemma ex_menu_distinct: "distinct (map m_id ex_menu)"
  by (simp add: ex_menu_def)

lemma ex_repeated_found:
  "findMenuItems (map menuItemId ex_repeated) ''v1'' ex_menu
     = [\<lparr> m_id = ''A'', m_vendorId = ''v1'', m_name = ''Tea'', price = 100 \<rparr>]"
  by (simp add: findMenuItems_def ex_repeated_def ex_line_def ex_menu_def)

theorem calculateTotalAmount_repeated_id_witness:
  "distinct (map m_id ex_menu) \<and>
   list_all (resolvable ''v1'' ex_menu) ex_repeated \<and>
   map menuItemId ex_repeated = [Some ''A'', Some ''A''] \<and>
   findMenuItems (map menuItemId ex_repeated) ''v1'' ex_menu
     = [\<lparr> m_id = ''A'', m_vendorId = ''v1'', m_name = ''Tea'', price = 100 \<rparr>] \<and>
   card (m_id ` set (findMenuItems (map menuItemId ex_repeated) ''v1'' ex_menu)) = 1 \<and>
   card (set (map menuItemId ex_repeated)) = 1 \<and>
   calculateTotalAmount ex_repeated ''v1'' ex_menu = Inl InvalidOrUnavailable"
proof -
  have ids: "map menuItemId ex_repeated = [Some ''A'', Some ''A'']"
    by (simp add: ex_repeated_def ex_line_def)
  then have nd: "\<not> distinct (map menuItemId ex_repeated)" by simp
  have r: "list_all (resolvable ''v1'' ex_menu) ex_repeated"
    by (simp add: resolvable_def resolve_def ex_repeated_def ex_line_def ex_menu_def)
  have c: "card (set (map menuItemId ex_repeated)) = 1" by (simp add: ids)
  from calculateTotalAmount_repeated_id [OF ex_menu_distinct r nd] c ids r
    ex_menu_distinct ex_repeated_found
  show ?thesis by simp
qed

text \<open>Both handlers pass the helper's error on and write nothing.\<close>

lemma helper_error_propagates:
  assumes "its \<noteq> []" and "list_all isValid its"
    and "calculateTotalAmount its (u_vendorId usr) (menu d) = Inl InvalidOrUnavailable"
  shows "(truthy_num tableNo \<longrightarrow>
            createOrder usr tableNo (Some its) fresh now d = (Inl InvalidReference, d)) \<and>
         (findOne orderId (u_vendorId usr) (orders d) = Some ord \<and>
          status ord \<noteq> ''Completed'' \<and> status ord \<noteq> ''Billed'' \<longrightarrow>
            addItemsToOrder usr orderId (Some its) now d = (Inl InvalidReference, d))"
  using assms by (simp add: createOrder_def addItemsToOrder_def caught_def)

section \<open>Creating an order\<close>

text \<open>
  Claim C1. A request that passes the validation, all of whose ids resolve in the caller's
  catalog, is to create an order in the kitchen status with the caller as server, the
  caller's vendor and the sum of quantity times unit price as total. When two of its lines
  name the same dish, the handler creates nothing: it answers with the helper's error and
  leaves the store as it was.
\<close>

theorem createOrder_repeated_id:
  assumes "distinct (map m_id (menu d))"
    and "truthy_num tableNo" and "its \<noteq> []" and "list_all isValid its"
    and "\<not> distinct (map menuItemId its)"
  shows "createOrder usr tableNo (Some its) fresh now d = (Inl InvalidReference, d)"
  using assms calculateTotalAmount_fails [of "menu d" its "u_vendorId usr"]
  by (simp add: createOrder_def caught_def)

lemma ex_repeated_valid: "list_all isValid ex_repeated"
  by (simp add: ex_repeated_def ex_line_def isValid_def truthy_str_def gt_zero_def truthy_num_def)

theorem createOrder_repeated_id_witness:
  "truthy_num (Some 5) \<and> list_all isValid ex_repeated \<and>
   list_all (resolvable (u_vendorId (ex_user ''Server'')) (menu (ex_db ''Ready''))) ex_repeated \<and>
   createOrder (ex_user ''Server'') (Some 5) (Some ex_repeated) ''o9'' 3000 (ex_db ''Ready'')
     = (Inl InvalidReference, ex_db ''Ready'')"
proof -
  have d: "distinct (map m_id (menu (ex_db ''Ready'')))"
    by (simp add: ex_db_def ex_menu_def)
  have t: "truthy_num (Some 5)" by (simp add: truthy_num_def)
  have ne: "ex_repeated \<noteq> []" by (simp add: ex_repeated_def)
  have nd: "\<not> distinct (map menuItemId ex_repeated)"
    by (simp add: ex_repeated_def ex_line_def)
  have r: "list_all (resolvable (u_vendorId (ex_user ''Server'')) (menu (ex_db ''Ready''))) ex_repeated"
    by (simp add: resolvable_def resolve_def ex_repeated_def ex_line_def ex_menu_def ex_db_def
        ex_user_def)
  from createOrder_repeated_id [OF d t ne ex_repeated_valid nd] t ex_repeated_valid r
  show ?thesis by simp
qed

text \<open>
  With pairwise distinct ids the handler does what Claim C1 says of it.
\<close>

lemma createOrder_distinct_lines:
  assumes d: "distinct (map m_id (menu d))"
    and tn: "tableNo = Some n" "n \<noteq> 0" and ne: "its \<noteq> []" and valid: "list_all isValid its"
    and di: "distinct (map menuItemId its)"
    and res: "list_all (resolvable (u_vendorId usr) (menu d)) its"
  shows "\<exists>ord. createOrder usr tableNo (Some its) fresh now d
                 = (Inr ord, d\<lparr>orders := orders d @ [ord]\<rparr>) \<and>
           status ord = ''Kitchen'' \<and> server ord = u_id usr \<and>
           o_vendorId ord = u_vendorId usr \<and> tableNumber ord = n \<and>
           totalAmount ord = sum_list (map (lineAmount (u_vendorId usr) (menu d)) its) \<and>
           items ord = map (denormalized (u_vendorId usr) (menu d)) its"
proof -
  from valid have "\<forall>it\<in>set its. quantity it \<noteq> None"
    by (simp add: list_all_iff isValid_quantity)
  from calculateTotalAmount_ok [OF d di res this] tn ne valid
  show ?thesis by (simp add: createOrder_def truthy_num_def Let_def)
qed

section \<open>Adding items\<close>

lemma save_fields:
  assumes "save now a b os = (s, os')"
  shows "o_id s = o_id b \<and> o_vendorId s = o_vendorId b \<and> items s = items b \<and>
         totalAmount s = totalAmount b \<and> status s = status b \<and> server s = server b \<and>
         tableNumber s = tableNumber b"
  using assms by (auto simp: save_def Let_def split: if_splits)



text \<open>The definitions that an evaluation of the examples unfolds.\<close>

lemmas ex_defs = ex_db_def ex_order_def ex_line_def ex_menu_def ex_user_def
lemmas js_defs = truthy_str_def truthy_num_def gt_zero_def js_add_def js_mul_def isValid_def



lemma resolvable_line:
  assumes "resolvable v ms it" and "quantity it = Some q"
  shows "\<exists>k m. menuItemId it = Some k \<and> resolve v ms k = Some m \<and>
           lineAmount v ms it = q * price m \<and>
           denormalized v ms it = it\<lparr>name := Some (m_name m)\<rparr>"
  using assms by (auto simp: resolvable_def lineAmount_def denormalized_def split: option.splits)







section \<open>The completed order\<close>

lemma save_findOne:
  assumes "findOne i v os = Some ord" and "o_id b = i" and "o_vendorId b = v"
    and "save now ord b os = (s, os')"
  shows "findOne i v os' = Some s"
proof (cases "b = ord")
  case True
  with assms show ?thesis by (simp add: save_def)
next
  case False
  with assms(4) have s: "s = b\<lparr>updatedAt := now\<rparr>"
    and os': "os' = map (\<lambda>x. if o_id x = o_id s then s else x) os"
    by (auto simp: save_def Let_def)
  from s assms(2,3) have sid: "o_id s = i" "o_vendorId s = v" by simp_all
  from assms(1) have "find (\<lambda>x. o_id x = i \<and> o_vendorId x = v)
      (map (\<lambda>x. if o_id x = i then s else x) os) = Some s"
  proof (induction os)
    case Nil
    then show ?case by (simp add: findOne_def)
  next
    case (Cons x xs)
    then show ?case using sid by (auto simp: findOne_def split: if_splits)
  qed
  with os' sid show ?thesis by (simp add: findOne_def)
qed

text \<open>
  What the handlers do on a completed order. Staff is refused by both.
\<close>

lemma updateStatus_completed_staff:
  assumes "role usr \<noteq> ''Vendor''" and "s \<in> allowedSet (role usr)"
    and "findOne orderId (u_vendorId usr) (orders d) = Some ord"
    and "status ord = ''Completed''"
  shows "updateStatus usr orderId (Some s) now d = (Inl InvalidState, d) \<and>
         updateStatus_orderController usr orderId (Some s) now d = (Inl InvalidState, d)"
  using assms
  by (simp add: updateStatus_def updateStatus_orderController_def mayRequest_Some)

lemma findOne_fields: "findOne i v os = Some ord \<Longrightarrow> o_id ord = i \<and> o_vendorId ord = v"
  unfolding findOne_def by (induction os) (auto split: if_splits)

text \<open>
  The handler of \<^verbatim>\<open>vendorStaffController.js\<close> lets the vendor set any of the six
  statuses, on a completed order as on any other, and stores the order.
\<close>

lemma updateStatus_vendor:
  assumes "role usr = ''Vendor''" and "s \<in> allowedSet ''Vendor''"
    and f: "findOne orderId (u_vendorId usr) (orders d) = Some ord"
  shows "\<exists>saved d'. updateStatus usr orderId (Some s) now d = (Inr saved, d') \<and>
           status saved = s \<and> findOne orderId (u_vendorId usr) (orders d') = Some saved"
proof -
  obtain sv os where sv: "save now ord (ord\<lparr>status := s\<rparr>) (orders d) = (sv, os)"
    by (cases "save now ord (ord\<lparr>status := s\<rparr>) (orders d)")
  from assms sv have "updateStatus usr orderId (Some s) now d = (Inr sv, d\<lparr>orders := os\<rparr>)"
    by (simp add: updateStatus_def mayRequest_Some)
  moreover from save_fields [OF sv] have "status sv = s" by simp
  moreover from findOne_fields [OF f]
  have "findOne orderId (u_vendorId usr) os = Some sv"
    by (intro save_findOne [OF f _ _ sv]) simp_all
  ultimately show ?thesis by simp
qed

text \<open>
  Claim C2. A completed order is closed to every role but the vendor, who may set it to
  any of the six statuses. The handler of \<^verbatim>\<open>vendorStaffController.js\<close> does so (the
  two lemmas above). The handler of \<^verbatim>\<open>orderController.js\<close>, whose table of
  transitions says that the vendor can override any state, refuses the vendor as it
  refuses everybody: on a completed order every status the vendor may request is answered
  with \<open>InvalidState\<close>, and the store is left as it was.
\<close>

theorem updateStatus_orderController_completed_vendor:
  assumes "role usr = ''Vendor''" and "s \<in> allowedSet ''Vendor''"
    and "findOne orderId (u_vendorId usr) (orders d) = Some ord"
    and "status ord = ''Completed''"
  shows "updateStatus_orderController usr orderId (Some s) now d = (Inl InvalidState, d)"
  using assms by (simp add: updateStatus_orderController_def mayRequest_Some)

theorem updateStatus_orderController_completed_vendor_witness:
  "role (ex_user ''Vendor'') = ''Vendor'' \<and> ''Kitchen'' \<in> allowedSet ''Vendor'' \<and>
   findOne ''o1'' (u_vendorId (ex_user ''Vendor'')) (orders (ex_db ''Completed''))
     = Some (ex_order ''o1'' ''v1'' ''Completed'') \<and>
   status (ex_order ''o1'' ''v1'' ''Completed'') = ''Completed'' \<and>
   updateStatus_orderController (ex_user ''Vendor'') ''o1'' (Some ''Kitchen'') 2000
       (ex_db ''Completed'')
     = (Inl InvalidState, ex_db ''Completed'') \<and>
   fst (updateStatus (ex_user ''Vendor'') ''o1'' (Some ''Kitchen'') 2000 (ex_db ''Completed''))
     = Inr ((ex_order ''o1'' ''v1'' ''Completed'')\<lparr>status := ''Kitchen'', updatedAt := 2000\<rparr>)"
proof -
  have r: "role (ex_user ''Vendor'') = ''Vendor''" by (simp add: ex_user_def)
  have u: "fst (updateStatus (ex_user ''Vendor'') ''o1'' (Some ''Kitchen'') 2000
                  (ex_db ''Completed''))
             = Inr ((ex_order ''o1'' ''v1'' ''Completed'')
                      \<lparr>status := ''Kitchen'', updatedAt := 2000\<rparr>)"
    by (simp add: updateStatus_def mayRequest_def allowedTransitions_def findOne_def save_def
        Let_def ex_defs)
  have a: "''Kitchen'' \<in> allowedSet ''Vendor''" by (simp add: allowedSet_def)
  have f: "findOne ''o1'' (u_vendorId (ex_user ''Vendor'')) (orders (ex_db ''Completed''))
             = Some (ex_order ''o1'' ''v1'' ''Completed'')"
    by (simp add: findOne_def ex_defs)
  have st: "status (ex_order ''o1'' ''v1'' ''Completed'') = ''Completed''"
    by (simp add: ex_order_def)
  from updateStatus_orderController_completed_vendor [OF r a f st] r a f st u
  show ?thesis by simp
qed

section \<open>Orders of another vendor\<close>

lemma findOne_foreign:
  assumes "distinct (map o_id os)" and "foreign \<in> set os" and "o_id foreign = i"
    and "o_vendorId foreign \<noteq> v"
  shows "findOne i v os = None"
proof -
  have "\<not> (o_id x = i \<and> o_vendorId x = v)" if "x \<in> set os" for x
  proof
    assume a: "o_id x = i \<and> o_vendorId x = v"
    from assms(1) have "inj_on o_id (set os)" by (simp add: distinct_map)
    with that assms(2,3) a have "x = foreign" by (auto dest: inj_onD)
    with a assms(4) show False by simp
  qed
  then show ?thesis by (auto simp: findOne_def find_None_iff)
qed

lemma findOne_without: "findOne i v (orders (without i d)) = None"
  by (auto simp: findOne_def find_None_iff without_def)

lemma menu_without: "menu (without i d) = menu d"
  by (simp add: without_def)

lemma updateStatus_NotFound:
  assumes "findOne orderId (u_vendorId usr) (orders d) = None"
  shows "fst (updateStatus usr orderId newStatus now d)
           = (if mayRequest (role usr) newStatus then Inl NotFound else Inl Forbidden) \<and>
         fst (updateStatus_orderController usr orderId newStatus now d)
           = (if mayRequest (role usr) newStatus then Inl NotFound else Inl Forbidden) \<and>
         snd (updateStatus usr orderId newStatus now d) = d \<and>
         snd (updateStatus_orderController usr orderId newStatus now d) = d"
  using assms
  by (cases newStatus)
     (simp_all add: updateStatus_def updateStatus_orderController_def mayRequest_def)

lemma addItemsToOrder_NotFound:
  assumes "findOne orderId (u_vendorId usr) (orders d) = None"
  shows "fst (addItemsToOrder usr orderId newItems now d)
           = (case newItems of None \<Rightarrow> Inl InvalidInput
              | Some its \<Rightarrow> if its \<noteq> [] \<and> list_all isValid its then Inl NotFound
                             else Inl InvalidInput) \<and>
         snd (addItemsToOrder usr orderId newItems now d) = d"
  using assms by (cases newItems) (simp_all add: addItemsToOrder_def)

text \<open>
  Claim C6. In a collection with unique ids, let an order with the requested id exist
  under another vendor than the caller's. Then the lookup by id replies \<open>NotFound\<close>; a
  status update whose requested status the role may set, by the handler of either file,
  and an addition of valid lines reply \<open>NotFound\<close> and leave the store as it was. For
  every request, the reply of each of these operations is the reply it gives on the store
  from which every order of that id has been taken out: that the order exists elsewhere
  cannot be told from the reply.
\<close>

theorem foreign_order_not_found:
  assumes "distinct (map o_id (orders d))" and "foreign \<in> set (orders d)"
    and "o_id foreign = orderId" and "o_vendorId foreign \<noteq> u_vendorId usr"
  shows "getOrderById usr orderId d = Inl NotFound \<and>
         (s \<in> allowedSet (role usr) \<longrightarrow>
            updateStatus usr orderId (Some s) now d = (Inl NotFound, d) \<and>
            updateStatus_orderController usr orderId (Some s) now d = (Inl NotFound, d)) \<and>
         (its \<noteq> [] \<and> list_all isValid its \<longrightarrow>
            addItemsToOrder usr orderId (Some its) now d = (Inl NotFound, d)) \<and>
         getOrderById usr orderId d = getOrderById usr orderId (without orderId d) \<and>
         fst (updateStatus usr orderId newStatus now d)
           = fst (updateStatus usr orderId newStatus now (without orderId d)) \<and>
         fst (updateStatus_orderController usr orderId newStatus now d)
           = fst (updateStatus_orderController usr orderId newStatus now (without orderId d)) \<and>
         fst (addItemsToOrder usr orderId newItems now d)
           = fst (addItemsToOrder usr orderId newItems now (without orderId d)) \<and>
         snd (updateStatus usr orderId newStatus now d) = d \<and>
         snd (updateStatus_orderController usr orderId newStatus now d) = d \<and>
         snd (addItemsToOrder usr orderId newItems now d) = d"
proof -
  have n: "findOne orderId (u_vendorId usr) (orders d) = None"
    using assms by (rule findOne_foreign)
  have n0: "findOne orderId (u_vendorId usr) (orders (without orderId d)) = None"
    by (rule findOne_without)
  have g: "getOrderById usr orderId d = Inl NotFound"
    and g0: "getOrderById usr orderId (without orderId d) = Inl NotFound"
    using n n0 by (simp_all add: getOrderById_def)
  have u: "s \<in> allowedSet (role usr) \<longrightarrow>
            updateStatus usr orderId (Some s) now d = (Inl NotFound, d) \<and>
            updateStatus_orderController usr orderId (Some s) now d = (Inl NotFound, d)"
    using updateStatus_NotFound [OF n, of "Some s" now]
    by (auto simp: mayRequest_Some prod_eq_iff)
  have a: "its \<noteq> [] \<and> list_all isValid its \<longrightarrow>
            addItemsToOrder usr orderId (Some its) now d = (Inl NotFound, d)"
    using addItemsToOrder_NotFound [OF n, of "Some its" now]
    by (auto simp: prod_eq_iff)
  from g g0 u a updateStatus_NotFound [OF n, of newStatus now]
    updateStatus_NotFound [OF n0, of newStatus now]
    addItemsToOrder_NotFound [OF n, of newItems now]
    addItemsToOrder_NotFound [OF n0, of newItems now]
  show ?thesis by simp
qed

theorem foreign_order_not_found_witness:
  "distinct (map o_id (orders (ex_db ''Ready''))) \<and>
   ex_order ''o2'' ''v2'' ''Ready'' \<in> set (orders (ex_db ''Ready'')) \<and>
   o_vendorId (ex_order ''o2'' ''v2'' ''Ready'') \<noteq> u_vendorId (ex_user ''Vendor'') \<and>
   ''Served'' \<in> allowedSet (role (ex_user ''Vendor'')) \<and>
   list_all isValid [ex_line ''B'' 1 5] \<and>
   getOrderById (ex_user ''Vendor'') ''o2'' (ex_db ''Ready'') = Inl NotFound \<and>
   updateStatus (ex_user ''Vendor'') ''o2'' (Some ''Served'') 2000 (ex_db ''Ready'')
     = (Inl NotFound, ex_db ''Ready'') \<and>
   updateStatus_orderController (ex_user ''Vendor'') ''o2'' (Some ''Served'') 2000 (ex_db ''Ready'')
     = (Inl NotFound, ex_db ''Ready'') \<and>
   addItemsToOrder (ex_user ''Vendor'') ''o2'' (Some [ex_line ''B'' 1 5]) 2000 (ex_db ''Ready'')
     = (Inl NotFound, ex_db ''Ready'') \<and>
   getOrderById (ex_user ''Vendor'') ''o2'' (ex_db ''Ready'')
     = getOrderById (ex_user ''Vendor'') ''o2'' (without ''o2'' (ex_db ''Ready''))"
proof -
  have d: "distinct (map o_id (orders (ex_db ''Ready'')))" by (simp add: ex_defs)
  have m: "ex_order ''o2'' ''v2'' ''Ready'' \<in> set (orders (ex_db ''Ready''))"
    by (simp add: ex_db_def)
  have i: "o_id (ex_order ''o2'' ''v2'' ''Ready'') = ''o2''" by (simp add: ex_order_def)
  have v: "o_vendorId (ex_order ''o2'' ''v2'' ''Ready'') \<noteq> u_vendorId (ex_user ''Vendor'')"
    by (simp add: ex_order_def ex_user_def)
  have a: "''Served'' \<in> allowedSet (role (ex_user ''Vendor''))"
    by (simp add: allowedSet_def ex_user_def)
  have l: "list_all isValid [ex_line ''B'' 1 5]" by (simp add: ex_defs js_defs)
  from foreign_order_not_found [OF d m i v, where s = "''Served''" and now = 2000
      and its = "[ex_line ''B'' 1 5]" and newStatus = None and newItems = None]
    d m v a l
  show ?thesis by (elim conjE) simp
qed

section \<open>The validation of a creation\<close>

lemma isValid_badLine: "isValid it \<longleftrightarrow> \<not> badLine it"
  by (auto simp: isValid_def badLine_def truthy_str_def truthy_num_def gt_zero_def
      split: option.splits)

text \<open>
  Claim C8, as amended. Creation replies \<open>InvalidInput\<close> exactly when the table number
  is missing or zero, the items are missing or empty, or a line has no id (or an empty
  one), no quantity or a quantity that is not above zero, or no table number or the table
  number zero. The reply is then given whatever the store and the catalog hold, and the
  store is left as it was. A line whose table number is not zero passes, a negative one
  included.
\<close>

theorem createOrder_refused:
  "(fst (createOrder usr tableNo body_items fresh now d) = Inl InvalidInput
      \<longleftrightarrow> refused tableNo body_items) \<and>
   (refused tableNo body_items
      \<longrightarrow> createOrder usr tableNo body_items fresh now d = (Inl InvalidInput, d))"
proof (cases body_items)
  case None
  then show ?thesis by (simp add: createOrder_def refused_def)
next
  case (Some its)
  have r: "refused tableNo (Some its) \<longleftrightarrow>
           \<not> truthy_num tableNo \<or> its = [] \<or> \<not> list_all isValid its"
    by (auto simp: refused_def truthy_num_def isValid_badLine list_all_iff list_ex_iff
        split: option.splits)
  show ?thesis
  proof (cases "refused tableNo (Some its)")
    case True
    with r Some show ?thesis by (auto simp: createOrder_def)
  next
    case False
    with r have ok: "truthy_num tableNo" "its \<noteq> []" "list_all isValid its" by auto
    then obtain tn where tn: "tableNo = Some tn" by (cases tableNo) (auto simp: truthy_num_def)
    have "fst (createOrder usr tableNo (Some its) fresh now d) \<noteq> Inl InvalidInput"
      using ok tn
      by (auto simp: createOrder_def caught_def Let_def
          split: sum.splits prod.splits option.splits exn.splits)
    with False Some show ?thesis by simp
  qed
qed

text \<open>
  Claim C8 as stated does not hold: a line with the table number \<open>- 1\<close> is not refused.
  The order is created and stored.
\<close>

theorem createOrder_negative_itemTableNumber:
  "itemTableNumber (ex_line ''A'' 1 (- 1)) = Some (- 1) \<and>
   createOrder (ex_user ''Server'') (Some 5) (Some [ex_line ''A'' 1 (- 1)]) ''o9'' 3000
       (ex_db ''Ready'')
     = (Inr ex_created,
        \<lparr> orders = [ex_order ''o1'' ''v1'' ''Ready'', ex_order ''o2'' ''v2'' ''Ready'', ex_created],
          menu = ex_menu \<rparr>)"
  by (simp add: createOrder_def calculateTotalAmount_def findMenuItems_def priceMap_def
      Let_def ex_created_def ex_defs js_defs)

theorem createOrder_refused_witness:
  "refused (Some 5) (Some [ex_line ''A'' 1 0]) \<and>
   createOrder (ex_user ''Server'') (Some 5) (Some [ex_line ''A'' 1 0]) ''o9'' 3000 (ex_db ''Ready'')
     = (Inl InvalidInput, ex_db ''Ready'') \<and>
   \<not> refused (Some 5) (Some [ex_line ''A'' 1 (- 1)]) \<and>
   fst (createOrder (ex_user ''Server'') (Some 5) (Some [ex_line ''A'' 1 (- 1)]) ''o9'' 3000
          (ex_db ''Ready'')) \<noteq> Inl InvalidInput"
proof -
  have a: "refused (Some 5) (Some [ex_line ''A'' 1 0])"
    by (simp add: refused_def badLine_def ex_line_def)
  have b: "\<not> refused (Some 5) (Some [ex_line ''A'' 1 (- 1)])"
    by (simp add: refused_def badLine_def ex_line_def)
  from createOrder_refused [of "ex_user ''Server''" "Some 5" "Some [ex_line ''A'' 1 0]" "''o9''"
      3000 "ex_db ''Ready''"]
    createOrder_refused [of "ex_user ''Server''" "Some 5" "Some [ex_line ''A'' 1 (- 1)]" "''o9''"
      3000 "ex_db ''Ready''"] a b
  show ?thesis by simp
qed

section \<open>The report of completed orders\<close>


lemma endOfDay_mod: "(endOfDay tz t + tz) mod 86400000 = 86399999"
  by (simp add: endOfDay_def)











section \<open>The total in binary64 arithmetic\<close>


lemma expo_hi_bounds:
  "1 \<le> x \<Longrightarrow> 0 \<le> expo_hi x \<and> 2 ^ nat (expo_hi x) \<le> x \<and> x < 2 ^ (nat (expo_hi x) + 1)"
proof (induction x rule: expo_hi.induct)
  case (1 x)
  show ?case
  proof (cases "2 \<le> x")
    case False
    with "1.prems" show ?thesis by (simp add: expo_hi.simps)
  next
    case True
    then have "1 \<le> x / 2" by simp
    with "1.IH" True have IH: "0 \<le> expo_hi (x / 2)" "2 ^ nat (expo_hi (x / 2)) \<le> x / 2"
      "x / 2 < 2 ^ (nat (expo_hi (x / 2)) + 1)" by simp_all
    have e: "expo_hi x = expo_hi (x / 2) + 1" using True by (simp add: expo_hi.simps)
    with IH(1) have n: "nat (expo_hi x) = nat (expo_hi (x / 2)) + 1" by simp
    from IH(2,3) have "2 ^ (nat (expo_hi (x / 2)) + 1) \<le> x"
      "x < 2 ^ (nat (expo_hi (x / 2)) + 1 + 1)" by simp_all
    with e n IH(1) show ?thesis by simp
  qed
qed

text \<open>The exponent found for a positive number is that of its binade: the number lies
  between that power of two and the next.\<close>

lemma pow2_succ: "pow2 (e + 1) = 2 * pow2 e"
proof (cases "0 \<le> e")
  case True
  then show ?thesis by (simp add: pow2_def nat_add_distrib)
next
  case False
  then have "nat (- e) = Suc (nat (- e - 1))" by simp
  with False show ?thesis by (cases "e = - 1") (simp_all add: pow2_def)
qed

lemma expo_lo_bounds:
  "0 < x \<Longrightarrow> x < 1 \<Longrightarrow> pow2 (expo_lo x) \<le> x \<and> x < pow2 (expo_lo x + 1)"
proof (induction x rule: expo_lo.induct)
  case (1 x)
  from "1.prems" have e: "expo_lo x = expo_lo (2 * x) - 1" by (simp add: expo_lo.simps)
  show ?case
  proof (cases "2 * x < 1")
    case True
    with "1.IH" "1.prems" have "pow2 (expo_lo (2 * x)) \<le> 2 * x"
      "2 * x < pow2 (expo_lo (2 * x) + 1)" by simp_all
    moreover have "pow2 (expo_lo (2 * x)) = 2 * pow2 (expo_lo x)"
      using pow2_succ [of "expo_lo x"] e by simp
    moreover have "pow2 (expo_lo (2 * x) + 1) = 2 * pow2 (expo_lo x + 1)"
      using pow2_succ [of "expo_lo x + 1"] e by simp
    ultimately show ?thesis by simp
  next
    case False
    then have "expo_lo (2 * x) = 0" by (simp add: expo_lo.simps)
    with e have "expo_lo x = - 1" by simp
    with False "1.prems" show ?thesis by (simp add: pow2_def)
  qed
qed

lemma expo_bounds:
  assumes "0 < x"
  shows "pow2 (expo x) \<le> x \<and> x < pow2 (expo x + 1)"
proof (cases "1 \<le> x")
  case True
  from expo_hi_bounds [OF True] True show ?thesis
    by (simp add: expo_def pow2_def nat_add_distrib)
next
  case False
  with assms expo_lo_bounds [of x] show ?thesis by (simp add: expo_def)
qed











end
